theory Spec2Isabelle
  imports Main "HOL-Library.Word"
begin

section \<open>gorbl: DNS blackhole list lookups\<close>

text \<open>
  A shallow embedding of package \<open>gorbl\<close>. The repository holds two generations of the
  package: the package-level functions \<open>query\<close> and \<open>Lookup\<close>, and the methods
  \<open>RBL.LookupIP\<close> and \<open>RBL.Lookup\<close> of a client built by \<open>NewRBL\<close>. Both
  are embedded here.

  A Go string is a \<open>string\<close> (a list of bytes); a Go slice is the list of its
  elements. The code reads slices only through \<open>len\<close>, \<open>range\<close>, indexing and
  \<open>append\<close>, so a nil slice and an empty slice are the same sequence \<open>[]\<close>.
  A value of the interface type \<open>error\<close> is an \<open>'e option\<close>, \<open>None\<close> being
  \<open>nil\<close>.
\<close>

subsection \<open>The parts of the Go library the package calls\<close>

subsubsection \<open>\<open>strings.Split\<close>, \<open>strings.Join\<close>, \<open>fmt.Sprintf\<close>\<close>

text \<open>
  \<open>strings.Split(s, sep)\<close> for a separator of one byte, which is how \<open>Reverse\<close>
  calls it (\<open>"."\<close>): the substrings between the separators, \<open>[s]\<close> when there is
  none. The first argument of \<open>splitAcc\<close> holds the bytes of the current substring,
  latest first.
\<close>

fun splitAcc :: "string \<Rightarrow> char \<Rightarrow> string \<Rightarrow> string list" where
  "splitAcc acc sep [] = [rev acc]"
| "splitAcc acc sep (c # cs) =
     (if c = sep then rev acc # splitAcc [] sep cs else splitAcc (c # acc) sep cs)"

definition Split :: "string \<Rightarrow> char \<Rightarrow> string list" where
  "Split s sep = splitAcc [] sep s"

text \<open>\<open>strings.Join(elems, sep)\<close>.\<close>

fun Join :: "string list \<Rightarrow> string \<Rightarrow> string" where
  "Join [] sep = []"
| "Join [x] sep = x"
| "Join (x # y # ys) sep = x @ sep @ Join (y # ys) sep"

text \<open>\<open>fmt.Sprintf("%s.%s", a, b)\<close>.\<close>

definition Sprintf_s_dot_s :: "string \<Rightarrow> string \<Rightarrow> string" where
  "Sprintf_s_dot_s a b = a @ ''.'' @ b"

subsubsection \<open>\<open>net.IP\<close>\<close>

text \<open>
  \<open>net.IP\<close> is a byte slice: 4 bytes for an IPv4 address, 16 bytes for an IPv6
  address or an IPv4 address in its IPv4-mapped IPv6 form.
\<close>

type_synonym IP = "8 word list"

definition isZeros :: "IP \<Rightarrow> bool" where
  "isZeros p = list_all (\<lambda>b. b = 0) p"

text \<open>
  \<open>ip.To4()\<close>: the 4-byte form of an IPv4 address, \<open>nil\<close> (here \<open>None\<close>) when
  \<open>ip\<close> is not an IPv4 address.
\<close>

definition To4 :: "IP \<Rightarrow> IP option" where
  "To4 ip =
     (if length ip = 4 then Some ip
      else if length ip = 16 \<and> isZeros (take 10 ip) \<and> ip ! 10 = 0xff \<and> ip ! 11 = 0xff
        then Some (drop 12 ip)
      else None)"

definition digits :: string where
  "digits = ''0123456789''"

text \<open>The decimal text of a byte, without leading zeros (\<open>appendDecimal\<close>).\<close>

definition appendDecimal :: "string \<Rightarrow> 8 word \<Rightarrow> string" where
  "appendDecimal b x =
     (let n = unat x;
          b = (if n \<ge> 100 then b @ [digits ! (n div 100)] else b);
          b = (if n \<ge> 10 then b @ [digits ! (n div 10 mod 10)] else b)
      in b @ [digits ! (n mod 10)])"

text \<open>The dotted-quad text of a 4-byte address.\<close>

definition string4 :: "IP \<Rightarrow> string" where
  "string4 p4 =
     (let ret = appendDecimal [] (p4 ! 0);
          ret = ret @ ''.'';
          ret = appendDecimal ret (p4 ! 1);
          ret = ret @ ''.'';
          ret = appendDecimal ret (p4 ! 2);
          ret = ret @ ''.''
      in appendDecimal ret (p4 ! 3))"

definition hexDigit :: string where
  "hexDigit = ''0123456789abcdef''"

text \<open>\<open>hexString\<close>: two lower-case hexadecimal digits for each byte.\<close>

definition hexString :: "IP \<Rightarrow> string" where
  "hexString b =
     concat (map (\<lambda>tn. [hexDigit ! (unat tn div 16), hexDigit ! (unat tn mod 16)]) b)"

text \<open>
  The text of a 16-bit group of an IPv6 address: lower-case hexadecimal without leading
  zeros (\<open>appendHex\<close>).
\<close>

definition appendHex :: "string \<Rightarrow> nat \<Rightarrow> string" where
  "appendHex b x =
     (let b = (if x \<ge> 0x1000 then b @ [hexDigit ! (x div 0x1000)] else b);
          b = (if x \<ge> 0x100 then b @ [hexDigit ! (x div 0x100 mod 16)] else b);
          b = (if x \<ge> 0x10 then b @ [hexDigit ! (x div 0x10 mod 16)] else b)
      in b @ [hexDigit ! (x mod 16)])"

text \<open>The eight 16-bit groups of a 16-byte address.\<close>

definition v6u16 :: "IP \<Rightarrow> nat \<Rightarrow> nat" where
  "v6u16 ip i = unat (ip ! (2 * i)) * 256 + unat (ip ! (2 * i + 1))"

definition groups :: "IP \<Rightarrow> nat list" where
  "groups ip = map (v6u16 ip) [0 ..< 8]"

text \<open>
  The run of zero groups that \<open>::\<close> replaces: the first one among the longest runs,
  of two groups at least. The result is the pair of its start and its end (exclusive),
  \<open>None\<close> when there is no such run.
\<close>

definition zeroRun :: "nat list \<Rightarrow> (nat \<times> nat) option" where
  "zeroRun gs =
     fold (\<lambda>i best.
        let j = i + length (takeWhile (\<lambda>g. g = 0) (drop i gs)); l = j - i
        in if l \<ge> 2 \<and> l > (case best of None \<Rightarrow> 0 | Some (zeroStart, zeroEnd) \<Rightarrow> zeroEnd - zeroStart)
           then Some (i, j) else best)
       [0 ..< 8] None"

text \<open>
  The IPv6 text of a 16-byte address: the groups separated by \<open>:\<close>, with \<open>::\<close>
  in place of the run of zero groups.
\<close>

definition string6 :: "IP \<Rightarrow> string" where
  "string6 ip =
     (let gs = groups ip
      in case zeroRun gs of
           None \<Rightarrow> Join (map (appendHex []) gs) '':''
         | Some (zeroStart, zeroEnd) \<Rightarrow>
             Join (map (appendHex []) (take zeroStart gs)) '':'' @ ''::'' @
             Join (map (appendHex []) (drop zeroEnd gs)) '':'')"

text \<open>
  \<open>ip.String()\<close>: \<open><nil>\<close> for the empty slice, the dotted quad for an IPv4
  address, the IPv6 text for any other 16-byte address, and \<open>?\<close> followed by the
  bytes in hexadecimal for a slice of any other length.
\<close>

definition ip_String :: "IP \<Rightarrow> string" where
  "ip_String ip =
     (if length ip = 0 then ''<nil>''
      else if length ip \<noteq> 4 \<and> length ip \<noteq> 16 then ''?'' @ hexString ip
      else (case To4 ip of Some p4 \<Rightarrow> string4 p4 | None \<Rightarrow> string6 ip))"

subsection \<open>\<open>Reverse\<close>\<close>

text \<open>
  The loop of \<open>Reverse\<close>:
  \<^verbatim>\<open>for i, j := 0, len(splitAddress)-1; i < len(splitAddress)/2; i, j = i+1, j-1\<close>
  swaps the elements at \<open>i\<close> and \<open>j\<close> in place. The indices are Go \<open>int\<close>s.
  While the loop runs, \<open>j = len - 1 - i\<close> and \<open>i < len / 2\<close>, so both indices are
  within the slice.
\<close>

function swapLoop :: "int \<Rightarrow> int \<Rightarrow> string list \<Rightarrow> string list" where
  "swapLoop i j splitAddress =
     (if i < int (length splitAddress) div 2
      then swapLoop (i + 1) (j - 1)
             (splitAddress[nat i := splitAddress ! nat j, nat j := splitAddress ! nat i])
      else splitAddress)"
  by pat_completeness auto
termination
  by (relation "measure (\<lambda>(i, j, xs). nat (int (length xs) div 2 - i))") auto

declare swapLoop.simps [simp del]

definition Reverse :: "IP \<Rightarrow> string" where
  "Reverse ip =
     (if To4 ip \<noteq> None then
        (let splitAddress = Split (ip_String ip) CHR ''.'';
             splitAddress = swapLoop 0 (int (length splitAddress) - 1) splitAddress
         in Join splitAddress ''.'')
      else '''')"

subsection \<open>The result types\<close>

text \<open>The struct \<open>Result\<close>: one finding. A field left out of a Go literal has its zero value.\<close>

record 'e Result =
  Address :: string
  Listed :: bool
  ListedAddress :: string
  Text :: string
  Error :: bool
  ErrorType :: "'e option"

text \<open>The struct \<open>RBLResults\<close>.\<close>

record 'e RBLResults =
  List :: string
  Host :: string
  Results :: "'e Result list"

subsection \<open>The resolver\<close>

text \<open>
  The DNS resolver is outside the package. A call of one of its methods takes the context
  and a name and returns a slice of answers and an \<open>error\<close>; both may be non-empty at
  once. What the resolver answers is not fixed by the arguments (the network may answer
  two equal queries differently), so each method reads and updates a state \<open>'s\<close> of the
  outside world: equal calls in equal states give equal answers, and nothing else is
  assumed of the answers. A call is taken to return: a lookup that blocks for ever is
  outside the model. \<open>'c\<close> is the type of contexts.
\<close>

record IPAddr =
  IP :: IP
  Zone :: string

record ('c, 'e, 's) Resolver =
  LookupHost :: "'c \<Rightarrow> string \<Rightarrow> 's \<Rightarrow> (string list \<times> 'e option) \<times> 's"
  LookupTXT :: "'c \<Rightarrow> string \<Rightarrow> 's \<Rightarrow> (string list \<times> 'e option) \<times> 's"
  LookupIPAddr :: "'c \<Rightarrow> string \<Rightarrow> 's \<Rightarrow> (IPAddr list \<times> 'e option) \<times> 's"

text \<open>
  The package-level functions \<open>net.LookupHost\<close>, \<open>net.LookupTXT\<close> and
  \<open>net.LookupIP\<close> of the Go library call the methods of \<open>net.DefaultResolver\<close> with
  \<open>context.Background()\<close>; \<open>net.LookupIP\<close> keeps the \<open>IP\<close> of each answer, and
  returns no address when there is an error. Below, \<open>dns\<close> is the zero-value
  \<open>net.Resolver\<close>, which both \<open>net.DefaultResolver\<close> and the \<open>&net.Resolver{}\<close>
  of \<open>NewRBL\<close> are, and \<open>bg\<close> is \<open>context.Background()\<close>.
\<close>

definition net_LookupHost ::
  "('c, 'e, 's) Resolver \<Rightarrow> 'c \<Rightarrow> string \<Rightarrow> 's \<Rightarrow> (string list \<times> 'e option) \<times> 's" where
  "net_LookupHost dns bg host s = LookupHost dns bg host s"

definition net_LookupTXT ::
  "('c, 'e, 's) Resolver \<Rightarrow> 'c \<Rightarrow> string \<Rightarrow> 's \<Rightarrow> (string list \<times> 'e option) \<times> 's" where
  "net_LookupTXT dns bg name s = LookupTXT dns bg name s"

definition net_LookupIP ::
  "('c, 'e, 's) Resolver \<Rightarrow> 'c \<Rightarrow> string \<Rightarrow> 's \<Rightarrow> (IP list \<times> 'e option) \<times> 's" where
  "net_LookupIP dns bg host s =
     (case LookupIPAddr dns bg host s of
        ((addrs, err), s) \<Rightarrow>
          if err \<noteq> None then (([], err), s) else ((map IP addrs, None), s))"

subsection \<open>The client: \<open>NewRBL\<close>, \<open>RBL.LookupIP\<close>, \<open>RBL.Lookup\<close>\<close>

record ('c, 'e, 's) RBL =
  hostname :: string
  lookupTxt :: bool
  resolver :: "('c, 'e, 's) Resolver"

definition NewRBL :: "('c, 'e, 's) Resolver \<Rightarrow> string \<Rightarrow> bool \<Rightarrow> ('c, 'e, 's) RBL" where
  "NewRBL dns hostname' lookupTxt' =
     \<lparr>hostname = hostname', lookupTxt = lookupTxt', resolver = dns\<rparr>"

text \<open>
  The body of the loop of \<open>RBL.LookupIP\<close> over the answers: the finding for the answer
  \<open>addr\<close>, and the state after the TXT lookup if there is one. \<open>err\<close> is the error
  of the host lookup; the error of the TXT lookup is dropped.
\<close>

definition LookupIP_finding ::
  "('c, 'e, 's) RBL \<Rightarrow> 'c \<Rightarrow> IP \<Rightarrow> string \<Rightarrow> 'e option \<Rightarrow> string \<Rightarrow> 's \<Rightarrow> 'e Result \<times> 's" where
  "LookupIP_finding r ctx ip ipHostname err addr s =
     (let res = \<lparr>Address = ip_String ip, Listed = True, ListedAddress = addr, Text = [],
                 Error = False, ErrorType = None\<rparr>
      in case (if lookupTxt r then
                 (case LookupTXT (resolver r) ctx ipHostname s of
                    ((txt, _), s) \<Rightarrow> (if length txt > 0 then res\<lparr>Text := txt ! 0\<rparr> else res, s))
               else (res, s)) of
           (res, s) \<Rightarrow>
             (if err \<noteq> None then res\<lparr>Error := True, ErrorType := err\<rparr> else res, s))"

fun LookupIP_loop ::
  "('c, 'e, 's) RBL \<Rightarrow> 'c \<Rightarrow> IP \<Rightarrow> string \<Rightarrow> 'e option \<Rightarrow> string list \<Rightarrow> 'e RBLResults \<Rightarrow> 's
     \<Rightarrow> 'e RBLResults \<times> 's" where
  "LookupIP_loop r ctx ip ipHostname err [] ret s = (ret, s)"
| "LookupIP_loop r ctx ip ipHostname err (addr # addrs) ret s =
     (case LookupIP_finding r ctx ip ipHostname err addr s of
        (res, s) \<Rightarrow>
          LookupIP_loop r ctx ip ipHostname err addrs (ret\<lparr>Results := Results ret @ [res]\<rparr>) s)"

definition RBL_LookupIP ::
  "('c, 'e, 's) RBL \<Rightarrow> 'c \<Rightarrow> IP \<Rightarrow> 's \<Rightarrow> 'e RBLResults \<times> 's" where
  "RBL_LookupIP r ctx ip s =
     (let ret = \<lparr>List = hostname r, Host = ip_String ip, Results = []\<rparr>;
          ipHostname = Sprintf_s_dot_s (Reverse ip) (hostname r)
      in case LookupHost (resolver r) ctx ipHostname s of
           ((addrs, err), s) \<Rightarrow>
             if length addrs < 1 then
               (let res = \<lparr>Address = ip_String ip, Listed = False, ListedAddress = [], Text = [],
                           Error = False, ErrorType = None\<rparr>;
                    res = (if err \<noteq> None then res\<lparr>Error := True, ErrorType := err\<rparr> else res)
                in (ret\<lparr>Results := Results ret @ [res]\<rparr>, s))
             else LookupIP_loop r ctx ip ipHostname err addrs ret s)"

fun Lookup_loop ::
  "('c, 'e, 's) RBL \<Rightarrow> 'c \<Rightarrow> IPAddr list \<Rightarrow> 'e RBLResults \<Rightarrow> 's \<Rightarrow> 'e RBLResults \<times> 's" where
  "Lookup_loop r ctx [] ret s = (ret, s)"
| "Lookup_loop r ctx (addr # addrs) ret s =
     (if To4 (IP addr) \<noteq> None then
        (case RBL_LookupIP r ctx (IP addr) s of
           (qResults, s) \<Rightarrow>
             Lookup_loop r ctx addrs (ret\<lparr>Results := Results ret @ Results qResults\<rparr>) s)
      else Lookup_loop r ctx addrs ret s)"

definition RBL_Lookup ::
  "('c, 'e, 's) RBL \<Rightarrow> 'c \<Rightarrow> string \<Rightarrow> 's \<Rightarrow> 'e RBLResults \<times> 's" where
  "RBL_Lookup r ctx targetHost s =
     (let ret = \<lparr>List = hostname r, Host = targetHost, Results = []\<rparr>
      in case LookupIPAddr (resolver r) ctx targetHost s of
           ((addrs, err), s) \<Rightarrow> if err = None then Lookup_loop r ctx addrs ret s else (ret, s))"

subsection \<open>The package-level functions: \<open>query\<close>, \<open>Lookup\<close>\<close>

definition query_finding ::
  "('c, 'e, 's) Resolver \<Rightarrow> 'c \<Rightarrow> IP \<Rightarrow> bool \<Rightarrow> string \<Rightarrow> 'e option \<Rightarrow> string \<Rightarrow> 's
     \<Rightarrow> 'e Result \<times> 's" where
  "query_finding dns bg ip lookupTxt' lookup err addr s =
     (let r = \<lparr>Address = ip_String ip, Listed = True, ListedAddress = addr, Text = [],
               Error = False, ErrorType = None\<rparr>
      in case (if lookupTxt' then
                 (case net_LookupTXT dns bg lookup s of
                    ((txt, _), s) \<Rightarrow> (if length txt > 0 then r\<lparr>Text := txt ! 0\<rparr> else r, s))
               else (r, s)) of
           (r, s) \<Rightarrow> (if err \<noteq> None then r\<lparr>Error := True, ErrorType := err\<rparr> else r, s))"

fun query_loop ::
  "('c, 'e, 's) Resolver \<Rightarrow> 'c \<Rightarrow> IP \<Rightarrow> bool \<Rightarrow> string \<Rightarrow> 'e option \<Rightarrow> string list
     \<Rightarrow> 'e Result list \<Rightarrow> 's \<Rightarrow> 'e Result list \<times> 's" where
  "query_loop dns bg ip lookupTxt' lookup err [] ret s = (ret, s)"
| "query_loop dns bg ip lookupTxt' lookup err (addr # addrs) ret s =
     (case query_finding dns bg ip lookupTxt' lookup err addr s of
        (r, s) \<Rightarrow> query_loop dns bg ip lookupTxt' lookup err addrs (ret @ [r]) s)"

definition query ::
  "('c, 'e, 's) Resolver \<Rightarrow> 'c \<Rightarrow> string \<Rightarrow> IP \<Rightarrow> bool \<Rightarrow> 's \<Rightarrow> 'e Result list \<times> 's" where
  "query dns bg rbl ip lookupTxt' s =
     (let ret = [];
          lookup = Sprintf_s_dot_s (Reverse ip) rbl
      in case net_LookupHost dns bg lookup s of
           ((addrs, err), s) \<Rightarrow>
             if length addrs < 1 then
               (let ret = ret @ [\<lparr>Address = ip_String ip, Listed = False, ListedAddress = [],
                                   Text = [], Error = False, ErrorType = None\<rparr>];
                    ret = (if err \<noteq> None
                           then ret[0 := (ret ! 0)\<lparr>Error := True, ErrorType := err\<rparr>] else ret)
                in (ret, s))
             else query_loop dns bg ip lookupTxt' lookup err addrs ret s)"

fun Lookup_v1_loop ::
  "('c, 'e, 's) Resolver \<Rightarrow> 'c \<Rightarrow> string \<Rightarrow> bool \<Rightarrow> IP list \<Rightarrow> 'e RBLResults \<Rightarrow> 's
     \<Rightarrow> 'e RBLResults \<times> 's" where
  "Lookup_v1_loop dns bg rblList lookupTxt' [] r s = (r, s)"
| "Lookup_v1_loop dns bg rblList lookupTxt' (addr # ip) r s =
     (if To4 addr \<noteq> None then
        (case query dns bg rblList addr lookupTxt' s of
           (qResults, s) \<Rightarrow>
             Lookup_v1_loop dns bg rblList lookupTxt' ip (r\<lparr>Results := Results r @ qResults\<rparr>) s)
      else Lookup_v1_loop dns bg rblList lookupTxt' ip r s)"

definition Lookup ::
  "('c, 'e, 's) Resolver \<Rightarrow> 'c \<Rightarrow> string \<Rightarrow> string \<Rightarrow> bool \<Rightarrow> 's \<Rightarrow> 'e RBLResults \<times> 's" where
  "Lookup dns bg rblList targetHost lookupTxt' s =
     (let r = \<lparr>List = [], Host = [], Results = []\<rparr>;
          r = r\<lparr>List := rblList\<rparr>;
          r = r\<lparr>Host := targetHost\<rparr>
      in case net_LookupIP dns bg targetHost s of
           ((ip, err), s) \<Rightarrow>
             if err = None then Lookup_v1_loop dns bg rblList lookupTxt' ip r s else (r, s))"

subsection \<open>What a run of lookups observes\<close>

text \<open>
  The answers of \<open>n\<close> TXT lookups of \<open>name\<close> made one after the other from the state
  \<open>s\<close>, in the order of the calls.
\<close>

fun TXT_answers ::
  "('c, 'e, 's) Resolver \<Rightarrow> 'c \<Rightarrow> string \<Rightarrow> nat \<Rightarrow> 's \<Rightarrow> (string list \<times> 'e option) list" where
  "TXT_answers dns ctx name 0 s = []"
| "TXT_answers dns ctx name (Suc n) s =
     (case LookupTXT dns ctx name s of (answer, s) \<Rightarrow> answer # TXT_answers dns ctx name n s)"

text \<open>
  The findings of \<open>RBL.LookupIP\<close> called for each address of a list, one call after the
  other from the state \<open>s\<close>: one list of findings for each address.
\<close>

fun LookupIP_each ::
  "('c, 'e, 's) RBL \<Rightarrow> 'c \<Rightarrow> IP list \<Rightarrow> 's \<Rightarrow> 'e Result list list" where
  "LookupIP_each r ctx [] s = []"
| "LookupIP_each r ctx (ip # ips) s =
     (case RBL_LookupIP r ctx ip s of (ret, s) \<Rightarrow> Results ret # LookupIP_each r ctx ips s)"

subsection \<open>An example resolver\<close>

text \<open>
  A resolver for the examples below. Its state counts the lookups made so far, its errors
  are messages, and it answers the same in every context (a context is a number here,
  \<open>0\<close> being \<open>context.Background()\<close>). The list \<open>zen.example\<close> has two answers
  for \<open>127.0.0.2\<close>, one answer together with an error for \<open>10.0.0.1\<close>, and an
  error for every other name. A TXT lookup has two values when the number of earlier
  lookups is even and fails otherwise. The host \<open>mail.example\<close> has two IPv4 addresses
  and one IPv6 address.
\<close>

definition example_dns :: "(nat, string, nat) Resolver" where
  "example_dns = \<lparr>
     LookupHost = (\<lambda>ctx name n.
        if name = ''2.0.0.127.zen.example'' then (([''127.0.0.2'', ''127.0.0.4''], None), Suc n)
        else if name = ''1.0.0.10.zen.example'' then (([''127.0.0.9''], Some ''truncated''), Suc n)
        else (([], Some ''no such host''), Suc n)),
     LookupTXT = (\<lambda>ctx name n.
        if even n then (([''listed, lookup '' @ [digits ! (n mod 10)], ''more''], None), Suc n)
        else (([], Some ''timeout''), Suc n)),
     LookupIPAddr = (\<lambda>ctx name n.
        if name = ''mail.example'' then
          (([\<lparr>IP = [127, 0, 0, 2], Zone = []\<rparr>,
             \<lparr>IP = [0x20, 1, 0xd, 0xb8, 0, 0, 0, 0, 0, 0, 0, 0, 0, 0, 0, 1], Zone = []\<rparr>,
             \<lparr>IP = [10, 0, 0, 1], Zone = []\<rparr>], None), Suc n)
        else (([], Some ''no such host''), Suc n))\<rparr>"

section \<open>Properties\<close>

subsection \<open>\<open>Reverse\<close>\<close>

lemma splitAcc_no_sep: "sep \<notin> set x \<Longrightarrow> splitAcc acc sep x = [rev acc @ x]"
  by (induction x arbitrary: acc) auto

lemma splitAcc_sep:
  "sep \<notin> set x \<Longrightarrow> splitAcc acc sep (x @ sep # rest) = (rev acc @ x) # splitAcc [] sep rest"
  by (induction x arbitrary: acc) auto

lemma appendDecimal_append: "appendDecimal b x = b @ appendDecimal [] x"
  by (simp add: appendDecimal_def Let_def)

lemma appendDecimal_digits: "set (appendDecimal [] x) \<subseteq> set digits"
proof -
  have len: "length digits = 10" by (simp add: digits_def)
  have "unat x < 256" using unsigned_less [of x] by simp
  then have d: "unat x div 100 < 10" by simp
  have a: "digits ! (unat x div 100) \<in> set digits" using d len by simp
  have b: "digits ! (unat x div 10 mod 10) \<in> set digits" using len by simp
  have c: "digits ! (unat x mod 10) \<in> set digits" using len by simp
  show ?thesis using a b c
    by (auto simp: appendDecimal_def Let_def)
qed

lemma appendDecimal_no_dot: "CHR ''.'' \<notin> set (appendDecimal [] x)"
proof -
  have "CHR ''.'' \<notin> set digits" by (simp add: digits_def)
  then show ?thesis using appendDecimal_digits [of x] by blast
qed

lemma string4_eq:
  "string4 [a, b, c, d] =
     appendDecimal [] a @ CHR ''.'' # appendDecimal [] b @ CHR ''.'' #
     appendDecimal [] c @ CHR ''.'' # appendDecimal [] d"
proof -
  have "string4 [a, b, c, d] =
      appendDecimal (appendDecimal (appendDecimal (appendDecimal [] a @ ''.'') b @ ''.'') c @ ''.'') d"
    by (simp add: string4_def Let_def)
  also have "\<dots> = (((appendDecimal [] a @ ''.'') @ appendDecimal [] b @ ''.'') @ appendDecimal [] c @ ''.'') @ appendDecimal [] d"
    by (simp only: appendDecimal_append [of "_ @ _"] append_assoc)
  finally show ?thesis by simp
qed

lemma Split_string4:
  "Split (string4 [a, b, c, d]) CHR ''.'' =
     [appendDecimal [] a, appendDecimal [] b, appendDecimal [] c, appendDecimal [] d]"
  by (simp add: string4_eq Split_def splitAcc_sep splitAcc_no_sep appendDecimal_no_dot)

text \<open>
  The loop reverses the slice. While it runs (\<open>i < len / 2\<close>, with \<open>j = len - 1 - i\<close>)
  both indices are within the slice, so no access is out of range.
\<close>

lemma swapLoop_indices:
  "0 \<le> i \<Longrightarrow> j = int (length xs) - 1 - i \<Longrightarrow> i < int (length xs) div 2 \<Longrightarrow>
   i < j \<and> nat i < length xs \<and> nat j < length xs"
  by linarith

lemma swapLoop_nth:
  "0 \<le> i \<Longrightarrow> j = int (length xs) - 1 - i \<Longrightarrow>
   length (swapLoop i j xs) = length xs \<and>
   (\<forall>k < length xs. swapLoop i j xs ! k =
      (if i \<le> int k \<and> int k \<le> j then xs ! nat (i + j - int k) else xs ! k))"
proof (induction i j xs rule: swapLoop.induct)
  case (1 i j xs)
  show ?case
  proof (cases "i < int (length xs) div 2")
    case False
    then have "swapLoop i j xs = xs" by (simp add: swapLoop.simps [of i j xs])
    moreover have "nat (i + j - int k) = k" if "i \<le> int k" "int k \<le> j" for k
      using that False "1.prems" by linarith
    ultimately show ?thesis by simp
  next
    case True
    let ?ys = "xs[nat i := xs ! nat j, nat j := xs ! nat i]"
    have step: "swapLoop i j xs = swapLoop (i + 1) (j - 1) ?ys"
      using True by (simp add: swapLoop.simps [of i j xs])
    have len: "length ?ys = length xs" by simp
    have ij: "i < j" "nat i < length xs" "nat j < length xs" "0 \<le> j" "nat i \<noteq> nat j"
      using True "1.prems" by linarith+
    have ys_i: "?ys ! nat i = xs ! nat j" and ys_j: "?ys ! nat j = xs ! nat i"
      using ij by (simp_all add: nth_list_update)
    have ys_other: "?ys ! m = xs ! m" if "m \<noteq> nat i" "m \<noteq> nat j" for m
      using that by (simp add: nth_list_update)
    have IH: "length (swapLoop (i + 1) (j - 1) ?ys) = length ?ys \<and>
      (\<forall>k < length ?ys. swapLoop (i + 1) (j - 1) ?ys ! k =
        (if i + 1 \<le> int k \<and> int k \<le> j - 1 then ?ys ! nat (i + 1 + (j - 1) - int k) else ?ys ! k))"
      using "1.prems" by (intro "1.IH" [OF True]) (simp_all)
    show ?thesis
    proof (intro conjI allI impI)
      show "length (swapLoop i j xs) = length xs" using IH by (simp add: step)
    next
      fix k assume k: "k < length xs"
      consider (lo) "int k < i" | (i) "int k = i" | (mid) "i < int k" "int k < j"
        | (j) "int k = j" | (hi) "j < int k" by linarith
      then show "swapLoop i j xs ! k =
        (if i \<le> int k \<and> int k \<le> j then xs ! nat (i + j - int k) else xs ! k)"
      proof cases
        case lo
        then have "k \<noteq> nat i" "k \<noteq> nat j" using ij "1.prems" by linarith+
        then show ?thesis using IH k lo ij by (simp add: step ys_other del: nth_list_update_neq)
      next
        case i
        then have ki: "k = nat i" by simp
        have "i + j - int k = j" using i by simp
        then show ?thesis using IH k i ij ys_i by (simp add: step ki)
      next
        case mid
        let ?m = "nat (i + j - int k)"
        have "?m \<noteq> nat i" "?m \<noteq> nat j" "?m < length xs" using mid ij "1.prems" by linarith+
        moreover have "i + 1 + (j - 1) - int k = i + j - int k" by simp
        ultimately show ?thesis using IH k mid ij by (simp add: step ys_other)
      next
        case j
        then have kj: "k = nat j" by simp
        have "i + j - int k = i" using j by simp
        then show ?thesis using IH k j ij ys_j by (simp add: step kj)
      next
        case hi
        then have "k \<noteq> nat i" "k \<noteq> nat j" using ij "1.prems" by linarith+
        then show ?thesis using IH k hi ij by (simp add: step ys_other)
      qed
    qed
  qed
qed

lemma swapLoop_rev: "swapLoop 0 (int (length xs) - 1) xs = rev xs"
proof (rule nth_equalityI)
  show "length (swapLoop 0 (int (length xs) - 1) xs) = length (rev xs)"
    using swapLoop_nth [of 0 "int (length xs) - 1" xs] by simp
next
  fix k assume "k < length (swapLoop 0 (int (length xs) - 1) xs)"
  then have k: "k < length xs" using swapLoop_nth [of 0 "int (length xs) - 1" xs] by simp
  then have "nat (int (length xs) - 1 - int k) = length xs - Suc k" by linarith
  then show "swapLoop 0 (int (length xs) - 1) xs ! k = rev xs ! k"
    using swapLoop_nth [of 0 "int (length xs) - 1" xs] k by (simp add: rev_nth)
qed

lemma swapLoop_4: "swapLoop 0 3 [w, x, y, z] = [z, y, x, w]"
  using swapLoop_rev [of "[w, x, y, z]"] by simp


lemma length4E: "length p = 4 \<Longrightarrow> (\<And>a b c d. p = [a, b, c, d] \<Longrightarrow> P) \<Longrightarrow> P"
proof -
  assume len: "length p = 4" and r: "\<And>a b c d. p = [a, b, c, d] \<Longrightarrow> P"
  from len obtain a p1 where 1: "p = a # p1" "length p1 = 3" by (cases p) auto
  from 1 obtain b p2 where 2: "p1 = b # p2" "length p2 = 2" by (cases p1) auto
  from 2 obtain c p3 where 3: "p2 = c # p3" "length p3 = 1" by (cases p2) auto
  from 3 obtain d where 4: "p3 = [d]" by (cases p3) auto
  show P using r 1 2 3 4 by simp
qed

lemma To4_length: "To4 ip = Some p4 \<Longrightarrow> length p4 = 4"
  by (auto simp: To4_def split: if_splits)

lemma ip_String_To4: "To4 ip = Some p4 \<Longrightarrow> ip_String ip = string4 p4"
  by (auto simp: ip_String_def To4_def split: if_splits)





lemma Reverse_To4:
  assumes "To4 ip = Some p4"
  shows "Reverse ip = string4 (rev p4)"
proof -
  from assms have "length p4 = 4" by (rule To4_length)
  then obtain a b c d where p4: "p4 = [a, b, c, d]" by (rule length4E)
  let ?parts = "[appendDecimal [] a, appendDecimal [] b, appendDecimal [] c, appendDecimal [] d]"
  have str: "Split (ip_String ip) CHR ''.'' = ?parts"
    using ip_String_To4 [OF assms] by (simp only: p4 Split_string4)
  have len: "int (length ?parts) - 1 = 3" by simp
  have "Reverse ip = Join (swapLoop 0 3 ?parts) ''.''"
    using assms by (simp add: Reverse_def Let_def str)
  also have "\<dots> = string4 [d, c, b, a]"
    by (simp add: swapLoop_4 string4_eq)
  finally show ?thesis by (simp add: p4)
qed


lemma digits_nth_inj: "m < 10 \<Longrightarrow> n < 10 \<Longrightarrow> digits ! m = digits ! n \<Longrightarrow> m = n"
proof -
  assume "m < 10" "n < 10" and eq: "digits ! m = digits ! n"
  have "distinct digits" by (simp add: digits_def)
  moreover have "length digits = 10" by (simp add: digits_def)
  ultimately show ?thesis using \<open>m < 10\<close> \<open>n < 10\<close> eq by (simp add: nth_eq_iff_index_eq)
qed

lemma recompose10:
  fixes m n :: nat
  assumes "m div 10 = n div 10" "m mod 10 = n mod 10"
  shows "m = n"
proof -
  have "m = m div 10 * 10 + m mod 10" by (rule div_mult_mod_eq [symmetric])
  also have "\<dots> = n div 10 * 10 + n mod 10" by (simp only: assms)
  also have "\<dots> = n" by (rule div_mult_mod_eq)
  finally show ?thesis .
qed

lemma recompose100:
  fixes m n :: nat
  assumes "m div 100 = n div 100" "m div 10 mod 10 = n div 10 mod 10" "m mod 10 = n mod 10"
  shows "m = n"
proof -
  have "m div 10 div 10 = m div 100" "n div 10 div 10 = n div 100"
    by (simp_all add: div_mult2_eq [symmetric])
  with assms(1) have "m div 10 div 10 = n div 10 div 10" by (simp only:)
  then have "m div 10 = n div 10" using assms(2) by (rule recompose10)
  then show ?thesis using assms(3) by (rule recompose10)
qed

lemma decimal_shape:
  assumes "(if P3 then [x1] else []) @ (if P2 then [x2] else []) @ [x3] =
           (if Q3 then [y1] else []) @ (if Q2 then [y2] else []) @ [y3::'a]"
    and "P3 \<longrightarrow> P2" "Q3 \<longrightarrow> Q2"
  shows "P3 = Q3 \<and> P2 = Q2 \<and> x3 = y3 \<and> (P2 \<longrightarrow> x2 = y2) \<and> (P3 \<longrightarrow> x1 = y1)"
  using assms by (cases P3; cases P2; cases Q3; cases Q2; simp)

lemma decimal_nat_inj:
  fixes m n :: nat
  assumes m: "m < 256" and n: "n < 256"
    and eq: "(if m \<ge> 100 then [digits ! (m div 100)] else []) @
             (if m \<ge> 10 then [digits ! (m div 10 mod 10)] else []) @ [digits ! (m mod 10)] =
             (if n \<ge> 100 then [digits ! (n div 100)] else []) @
             (if n \<ge> 10 then [digits ! (n div 10 mod 10)] else []) @ [digits ! (n mod 10)]"
  shows "m = n"
proof -
  have h: "m div 100 < 10" "n div 100 < 10" using m n by simp_all
  have t: "m div 10 mod 10 < 10" "n div 10 mod 10 < 10" by simp_all
  have u: "m mod 10 < 10" "n mod 10 < 10" by simp_all
  have mono: "100 \<le> m \<longrightarrow> 10 \<le> m" "100 \<le> n \<longrightarrow> 10 \<le> n" by simp_all
  note sh = decimal_shape [OF eq mono]
  from sh have d0: "m mod 10 = n mod 10" using digits_nth_inj [OF u] by blast
  show ?thesis
  proof (cases "100 \<le> m")
    case True
    then have "100 \<le> n" "10 \<le> m" using sh mono by blast+
    then have "m div 100 = n div 100" "m div 10 mod 10 = n div 10 mod 10"
      using sh True digits_nth_inj [OF h] digits_nth_inj [OF t] by blast+
    then show ?thesis using d0 by (rule recompose100)
  next
    case False
    then have nn: "\<not> 100 \<le> n" using sh by blast
    have z: "m div 100 = n div 100" using False nn by simp
    show ?thesis
    proof (cases "10 \<le> m")
      case True
      then have "m div 10 mod 10 = n div 10 mod 10"
        using sh digits_nth_inj [OF t] by blast
      with z show ?thesis using d0 by (rule recompose100)
    next
      case F2: False
      then have "\<not> 10 \<le> n" using sh by blast
      with F2 have "m div 10 = n div 10" by simp
      then show ?thesis using d0 by (rule recompose10)
    qed
  qed
qed


lemma append_if_shape:
  "(if Q then (if P then b0 @ [x1] else b0) @ [x2] else (if P then b0 @ [x1] else b0)) @ [x3] =
   b0 @ (if P then [x1] else []) @ (if Q then [x2] else []) @ [x3]"
  by (cases P; cases Q; simp)

lemma appendDecimal_shape:
  "appendDecimal [] x =
     (if unat x \<ge> 100 then [digits ! (unat x div 100)] else []) @
     (if unat x \<ge> 10 then [digits ! (unat x div 10 mod 10)] else []) @ [digits ! (unat x mod 10)]"
  unfolding appendDecimal_def Let_def append_if_shape by (simp only: append_Nil)

lemma appendDecimal_inj:
  assumes "appendDecimal [] x = appendDecimal [] y"
  shows "x = y"
proof -
  have x: "unat x < 256" using unsigned_less [of x] by simp
  have y: "unat y < 256" using unsigned_less [of y] by simp
  have "unat x = unat y"
    using assms unfolding appendDecimal_shape by (rule decimal_nat_inj [OF x y])
  then show ?thesis by (simp only: word_unat_eq_iff)
qed

lemma string4_inj:
  assumes "length p = 4" "length q = 4" "string4 p = string4 q"
  shows "p = q"
proof -
  from assms(1) obtain a b c d where p: "p = [a, b, c, d]" by (rule length4E)
  from assms(2) obtain a' b' c' d' where q: "q = [a', b', c', d']" by (rule length4E)
  from assms(3) have "Split (string4 [a, b, c, d]) CHR ''.'' = Split (string4 [a', b', c', d']) CHR ''.''"
    by (simp only: p q)
  then have "appendDecimal [] a = appendDecimal [] a'" "appendDecimal [] b = appendDecimal [] b'"
    "appendDecimal [] c = appendDecimal [] c'" "appendDecimal [] d = appendDecimal [] d'"
    by (simp_all only: Split_string4 list.inject)
  then show ?thesis unfolding p q by (simp only: appendDecimal_inj [of a a'] appendDecimal_inj [of b b']
        appendDecimal_inj [of c c'] appendDecimal_inj [of d d'])
qed

lemma To4_rev4: "length p = 4 \<Longrightarrow> To4 (rev p) = Some (rev p)"
  by (simp add: To4_def)

subsection \<open>The loops of the lookups\<close>

lemma LookupIP_finding_noTxt:
  "\<not> lookupTxt r \<Longrightarrow>
   LookupIP_finding r ctx ip name err addr s =
     (\<lparr>Address = ip_String ip, Listed = True, ListedAddress = addr, Text = [],
       Error = (err \<noteq> None), ErrorType = err\<rparr>, s)"
  by (cases err) (simp_all add: LookupIP_finding_def Let_def)

lemma LookupIP_finding_Txt:
  "lookupTxt r \<Longrightarrow> LookupTXT (resolver r) ctx name s = ((txt, txtErr), s') \<Longrightarrow>
   LookupIP_finding r ctx ip name err addr s =
     (\<lparr>Address = ip_String ip, Listed = True, ListedAddress = addr,
       Text = (case txt of [] \<Rightarrow> [] | t # _ \<Rightarrow> t),
       Error = (err \<noteq> None), ErrorType = err\<rparr>, s')"
  by (cases "txt"; cases err) (simp_all add: LookupIP_finding_def Let_def)

lemma LookupIP_loop_List_Host:
  "List (fst (LookupIP_loop r ctx ip name err addrs ret s)) = List ret \<and>
   Host (fst (LookupIP_loop r ctx ip name err addrs ret s)) = Host ret"
  by (induction addrs arbitrary: ret s) (simp_all split: prod.splits)

lemma LookupIP_loop_noTxt:
  "\<not> lookupTxt r \<Longrightarrow>
   LookupIP_loop r ctx ip name err addrs ret s =
     (ret\<lparr>Results := Results ret @
        map (\<lambda>addr. \<lparr>Address = ip_String ip, Listed = True, ListedAddress = addr, Text = [],
                       Error = (err \<noteq> None), ErrorType = err\<rparr>) addrs\<rparr>, s)"
  by (induction addrs arbitrary: ret) (simp_all add: LookupIP_finding_noTxt)

lemma LookupIP_loop_Txt:
  "lookupTxt r \<Longrightarrow>
   Results (fst (LookupIP_loop r ctx ip name err addrs ret s)) =
     Results ret @
     map2 (\<lambda>addr (txt, txtErr).
             \<lparr>Address = ip_String ip, Listed = True, ListedAddress = addr,
               Text = (case txt of [] \<Rightarrow> [] | t # _ \<Rightarrow> t),
               Error = (err \<noteq> None), ErrorType = err\<rparr>)
       addrs (TXT_answers (resolver r) ctx name (length addrs) s)"
proof (induction addrs arbitrary: ret s)
  case Nil
  then show ?case by simp
next
  case (Cons addr addrs)
  obtain answer txtErr s' where tx: "LookupTXT (resolver r) ctx name s = ((answer, txtErr), s')"
    by (metis prod.exhaust)
  show ?case
    using Cons.prems
    by (simp add: LookupIP_finding_Txt [OF Cons.prems tx] tx Cons.IH)
qed

subsection \<open>\<open>RBL.LookupIP\<close> and \<open>RBL.Lookup\<close>: auxiliary facts\<close>

lemma length_TXT_answers: "length (TXT_answers dns ctx name n s) = n"
  by (induction n arbitrary: s) (simp_all split: prod.splits)

lemma RBL_LookupIP_no_answer:
  assumes "LookupHost (resolver r) ctx (Sprintf_s_dot_s (Reverse ip) (hostname r)) s = (([], err), s')"
  shows "RBL_LookupIP r ctx ip s =
     (\<lparr>List = hostname r, Host = ip_String ip,
       Results = [\<lparr>Address = ip_String ip, Listed = False, ListedAddress = [], Text = [],
                   Error = (err \<noteq> None), ErrorType = err\<rparr>]\<rparr>, s')"
  using assms by (cases err) (simp_all add: RBL_LookupIP_def Let_def)

lemma RBL_LookupIP_answers:
  assumes "LookupHost (resolver r) ctx (Sprintf_s_dot_s (Reverse ip) (hostname r)) s = ((addrs, err), s')"
    and "addrs \<noteq> []"
  shows "RBL_LookupIP r ctx ip s =
     LookupIP_loop r ctx ip (Sprintf_s_dot_s (Reverse ip) (hostname r)) err addrs
       \<lparr>List = hostname r, Host = ip_String ip, Results = []\<rparr> s'"
  using assms by (cases addrs) (simp_all add: RBL_LookupIP_def Let_def)

lemma LookupIP_finding_fields:
  "Address (fst (LookupIP_finding r ctx ip name err addr s)) = ip_String ip \<and>
   Listed (fst (LookupIP_finding r ctx ip name err addr s)) \<and>
   ListedAddress (fst (LookupIP_finding r ctx ip name err addr s)) = addr \<and>
   Error (fst (LookupIP_finding r ctx ip name err addr s)) = (err \<noteq> None) \<and>
   ErrorType (fst (LookupIP_finding r ctx ip name err addr s)) = err"
proof (cases "lookupTxt r")
  case True
  obtain answer txtErr s' where "LookupTXT (resolver r) ctx name s = ((answer, txtErr), s')"
    by (metis prod.exhaust)
  from LookupIP_finding_Txt [OF True this] show ?thesis by simp
next
  case False
  then show ?thesis by (simp add: LookupIP_finding_noTxt)
qed

lemma LookupIP_loop_findings:
  assumes "\<forall>f \<in> set (Results ret). P f"
    and "\<And>addr s. P (fst (LookupIP_finding r ctx ip name err addr s))"
  shows "\<forall>f \<in> set (Results (fst (LookupIP_loop r ctx ip name err addrs ret s))). P f"
  using assms(1)
proof (induction addrs arbitrary: ret s)
  case Nil
  then show ?case by simp
next
  case (Cons addr addrs)
  obtain res s' where f: "LookupIP_finding r ctx ip name err addr s = (res, s')"
    by (metis prod.exhaust)
  have "P res" using assms(2) [of addr s] by (simp add: f)
  with Cons.prems have "\<forall>f \<in> set (Results (ret\<lparr>Results := Results ret @ [res]\<rparr>)). P f"
    by simp
  from Cons.IH [OF this] show ?case by (simp add: f)
qed

lemma LookupIP_loop_length:
  "length (Results (fst (LookupIP_loop r ctx ip name err addrs ret s))) =
     length (Results ret) + length addrs"
  by (induction addrs arbitrary: ret s) (simp_all split: prod.splits)

lemma RBL_LookupIP_findings:
  assumes neg: "\<And>err. P \<lparr>Address = ip_String ip, Listed = False, ListedAddress = [], Text = [],
                   Error = (err \<noteq> None), ErrorType = err\<rparr>"
    and pos: "\<And>name err addr s. P (fst (LookupIP_finding r ctx ip name err addr s))"
  shows "\<forall>f \<in> set (Results (fst (RBL_LookupIP r ctx ip s))). P f"
proof -
  obtain addrs err s' where
    h: "LookupHost (resolver r) ctx (Sprintf_s_dot_s (Reverse ip) (hostname r)) s = ((addrs, err), s')"
    by (metis prod.exhaust)
  show ?thesis
  proof (cases "addrs = []")
    case True
    with h show ?thesis using neg [of err] by (simp add: RBL_LookupIP_no_answer)
  next
    case False
    show ?thesis
      unfolding RBL_LookupIP_answers [OF h False]
      by (rule LookupIP_loop_findings) (simp_all add: pos)
  qed
qed

lemma Lookup_loop_List_Host:
  "List (fst (Lookup_loop r ctx addrs ret s)) = List ret \<and>
   Host (fst (Lookup_loop r ctx addrs ret s)) = Host ret"
  by (induction addrs arbitrary: ret s) (simp_all split: prod.splits)

lemma Lookup_loop_Results:
  "Results (fst (Lookup_loop r ctx addrs ret s)) =
     Results ret @ concat (LookupIP_each r ctx (filter (\<lambda>ip. To4 ip \<noteq> None) (map IP addrs)) s)"
  by (induction addrs arbitrary: ret s) (simp_all split: prod.splits)

lemma LookupIP_each_findings:
  assumes "\<And>ip s. ip \<in> set ips \<Longrightarrow> \<forall>f \<in> set (Results (fst (RBL_LookupIP r ctx ip s))). P ip f"
  shows "\<forall>f \<in> set (concat (LookupIP_each r ctx ips s)). \<exists>ip \<in> set ips. P ip f"
  using assms
proof (induction ips arbitrary: s)
  case Nil
  then show ?case by simp
next
  case (Cons ip ips)
  obtain ret s' where c: "RBL_LookupIP r ctx ip s = (ret, s')" by (metis prod.exhaust)
  have 1: "\<forall>f \<in> set (Results ret). P ip f" using Cons.prems [of ip s] by (simp add: c)
  have 2: "\<forall>f \<in> set (concat (LookupIP_each r ctx ips s')). \<exists>ip \<in> set ips. P ip f"
    by (rule Cons.IH) (simp add: Cons.prems)
  show ?case using 1 2 by (auto simp: c)
qed

lemma RBL_LookupIP_List_Host:
  "List (fst (RBL_LookupIP r ctx ip s)) = hostname r \<and>
   Host (fst (RBL_LookupIP r ctx ip s)) = ip_String ip"
  by (simp add: RBL_LookupIP_def Let_def LookupIP_loop_List_Host split: prod.splits)

lemma RBL_Lookup_List_Host:
  "List (fst (RBL_Lookup r ctx targetHost s)) = hostname r \<and>
   Host (fst (RBL_Lookup r ctx targetHost s)) = targetHost"
  by (simp add: RBL_Lookup_def Let_def Lookup_loop_List_Host split: prod.splits)

subsection \<open>\<open>query\<close> and \<open>Lookup\<close> against the methods of the client\<close>

lemma query_finding_eq:
  assumes "\<forall>name s. LookupTXT dns ctx name s = LookupTXT dns bg name s"
  shows "query_finding dns bg ip t name err addr s =
     LookupIP_finding (NewRBL dns rbl t) ctx ip name err addr s"
  using assms
  by (cases t) (simp_all add: query_finding_def LookupIP_finding_def net_LookupTXT_def NewRBL_def)

lemma query_loop_eq:
  assumes "\<forall>name s. LookupTXT dns ctx name s = LookupTXT dns bg name s"
  shows "query_loop dns bg ip t name err addrs (Results ret) s =
     (Results (fst (LookupIP_loop (NewRBL dns rbl t) ctx ip name err addrs ret s)),
      snd (LookupIP_loop (NewRBL dns rbl t) ctx ip name err addrs ret s))"
proof (induction addrs arbitrary: ret s)
  case Nil
  then show ?case by simp
next
  case (Cons addr addrs)
  obtain res s' where f: "LookupIP_finding (NewRBL dns rbl t) ctx ip name err addr s = (res, s')"
    by (metis prod.exhaust)
  have q: "query_finding dns bg ip t name err addr s = (res, s')"
    by (simp only: query_finding_eq [OF assms, where rbl = rbl] f)
  show ?case
    using Cons.IH [of "ret\<lparr>Results := Results ret @ [res]\<rparr>" s'] by (simp add: f q)
qed

lemma query_eq:
  assumes "\<forall>name s. LookupHost dns ctx name s = LookupHost dns bg name s"
    and "\<forall>name s. LookupTXT dns ctx name s = LookupTXT dns bg name s"
  shows "query dns bg rbl ip t s =
     (Results (fst (RBL_LookupIP (NewRBL dns rbl t) ctx ip s)),
      snd (RBL_LookupIP (NewRBL dns rbl t) ctx ip s))"
proof -
  let ?name = "Sprintf_s_dot_s (Reverse ip) rbl"
  obtain addrs err s' where h: "LookupHost dns bg ?name s = ((addrs, err), s')"
    by (metis prod.exhaust)
  then have h': "LookupHost dns ctx ?name s = ((addrs, err), s')" using assms(1) by simp
  have nr: "resolver (NewRBL dns rbl t) = dns" "hostname (NewRBL dns rbl t) = rbl"
    by (simp_all add: NewRBL_def)
  show ?thesis
  proof (cases "addrs = []")
    case True
    then show ?thesis using h h'
      by (cases err) (simp_all add: query_def RBL_LookupIP_def net_LookupHost_def nr Let_def)
  next
    case False
    have "query dns bg rbl ip t s =
        query_loop dns bg ip t ?name err addrs
          (Results \<lparr>List = rbl, Host = ip_String ip, Results = []\<rparr>) s'"
      using h False by (cases addrs) (simp_all add: query_def net_LookupHost_def Let_def)
    moreover have "RBL_LookupIP (NewRBL dns rbl t) ctx ip s =
        LookupIP_loop (NewRBL dns rbl t) ctx ip ?name err addrs
          \<lparr>List = rbl, Host = ip_String ip, Results = []\<rparr> s'"
      using h' False by (cases addrs) (simp_all add: RBL_LookupIP_def nr Let_def)
    ultimately show ?thesis
      by (simp only: query_loop_eq [OF assms(2), where rbl = rbl])
  qed
qed

lemma Lookup_v1_loop_eq:
  assumes "\<forall>name s. LookupHost dns ctx name s = LookupHost dns bg name s"
    and "\<forall>name s. LookupTXT dns ctx name s = LookupTXT dns bg name s"
  shows "Lookup_v1_loop dns bg rbl t (map IP addrs) ret s =
     Lookup_loop (NewRBL dns rbl t) ctx addrs ret s"
proof (induction addrs arbitrary: ret s)
  case Nil
  then show ?case by simp
next
  case (Cons addr addrs)
  show ?case
    by (simp add: query_eq [OF assms] Cons.IH split: prod.splits)
qed

subsection \<open>The claims\<close>

text \<open>
  Claim C1. When the host lookup of the query name \<open>Reverse(ip) + "." + hostname\<close>
  returns no address, \<open>RBL.LookupIP\<close> returns exactly one finding: it is not listed,
  its listed address and its text are empty, and its error flag is set, with the error of
  the lookup as its cause, exactly when the lookup returned an error.
\<close>

theorem LookupIP_zero_addresses:
  assumes "LookupHost (resolver r) ctx (Sprintf_s_dot_s (Reverse ip) (hostname r)) s = (([], err), s')"
  shows "Results (fst (RBL_LookupIP r ctx ip s)) =
     [\<lparr>Address = ip_String ip, Listed = False, ListedAddress = [], Text = [],
       Error = (err \<noteq> None), ErrorType = err\<rparr>]"
  by (simp add: RBL_LookupIP_no_answer [OF assms])

theorem LookupIP_zero_addresses_witness:
  "LookupHost (resolver (NewRBL example_dns ''zen.example'' True)) 1
     (Sprintf_s_dot_s (Reverse [10, 0, 0, 3]) (hostname (NewRBL example_dns ''zen.example'' True))) 0 =
     (([], Some ''no such host''), 1) \<and>
   Results (fst (RBL_LookupIP (NewRBL example_dns ''zen.example'' True) 1 [10, 0, 0, 3] 0)) =
     [\<lparr>Address = ''10.0.0.3'', Listed = False, ListedAddress = [], Text = [],
       Error = True, ErrorType = Some ''no such host''\<rparr>]"
proof -
  have h: "LookupHost (resolver (NewRBL example_dns ''zen.example'' True)) 1
     (Sprintf_s_dot_s (Reverse [10, 0, 0, 3]) (hostname (NewRBL example_dns ''zen.example'' True))) 0 =
     (([], Some ''no such host''), 1)"
    by code_simp
  have a: "ip_String [10, 0, 0, 3] = ''10.0.0.3''" by code_simp
  show ?thesis using h LookupIP_zero_addresses [OF h] by (simp add: a)
qed

text \<open>
  Claim C2. When the host lookup of the query name returns the addresses \<open>addrs\<close>,
  at least one, and the client was built with TXT lookups disabled, \<open>RBL.LookupIP\<close>
  returns one finding for each returned address, in the order of the answer: each is
  listed, its listed address is that returned address, and its text is empty.
\<close>

theorem LookupIP_answers_without_TXT:
  assumes "LookupHost dns ctx (Sprintf_s_dot_s (Reverse ip) zone) s = ((addrs, err), s')"
    and "addrs \<noteq> []"
  shows "Results (fst (RBL_LookupIP (NewRBL dns zone False) ctx ip s)) =
     map (\<lambda>addr. \<lparr>Address = ip_String ip, Listed = True, ListedAddress = addr, Text = [],
                    Error = (err \<noteq> None), ErrorType = err\<rparr>) addrs"
proof -
  let ?r = "NewRBL dns zone False"
  have h: "LookupHost (resolver ?r) ctx (Sprintf_s_dot_s (Reverse ip) (hostname ?r)) s = ((addrs, err), s')"
    using assms(1) by (simp add: NewRBL_def)
  have "\<not> lookupTxt ?r" by (simp add: NewRBL_def)
  then show ?thesis
    by (simp add: RBL_LookupIP_answers [OF h assms(2)] LookupIP_loop_noTxt)
qed

theorem LookupIP_answers_without_TXT_witness:
  "LookupHost example_dns 1 (Sprintf_s_dot_s (Reverse [127, 0, 0, 2]) ''zen.example'') 0 =
     (([''127.0.0.2'', ''127.0.0.4''], None), 1) \<and>
   [''127.0.0.2'', ''127.0.0.4''] \<noteq> [] \<and>
   Results (fst (RBL_LookupIP (NewRBL example_dns ''zen.example'' False) 1 [127, 0, 0, 2] 0)) =
     [\<lparr>Address = ''127.0.0.2'', Listed = True, ListedAddress = ''127.0.0.2'', Text = [],
       Error = False, ErrorType = None\<rparr>,
      \<lparr>Address = ''127.0.0.2'', Listed = True, ListedAddress = ''127.0.0.4'', Text = [],
       Error = False, ErrorType = None\<rparr>]"
proof -
  have h: "LookupHost example_dns 1 (Sprintf_s_dot_s (Reverse [127, 0, 0, 2]) ''zen.example'') 0 =
     (([''127.0.0.2'', ''127.0.0.4''], None), 1)"
    by code_simp
  have n: "[''127.0.0.2'', ''127.0.0.4''] \<noteq> []" by simp
  have a: "ip_String [127, 0, 0, 2] = ''127.0.0.2''" by code_simp
  show ?thesis using h LookupIP_answers_without_TXT [OF h n] by (simp add: a)
qed

text \<open>
  Claim C3. When the host lookup returns at least one address and the client was built
  with TXT lookups enabled, \<open>RBL.LookupIP\<close> makes one TXT lookup of the query name for
  each returned address, one after the other from the state the host lookup left. The
  text of a finding is the first value of the TXT answer obtained for it, and is empty
  when that answer has no value. The error of a TXT lookup (\<open>txtErr\<close>) appears in no
  field of any finding: the error flag and the cause come from the host lookup alone.
\<close>

theorem LookupIP_answers_with_TXT:
  assumes "LookupHost dns ctx (Sprintf_s_dot_s (Reverse ip) zone) s = ((addrs, err), s')"
    and "addrs \<noteq> []"
  shows "Results (fst (RBL_LookupIP (NewRBL dns zone True) ctx ip s)) =
     map2 (\<lambda>addr (txt, txtErr).
             \<lparr>Address = ip_String ip, Listed = True, ListedAddress = addr,
               Text = (case txt of [] \<Rightarrow> [] | t # _ \<Rightarrow> t),
               Error = (err \<noteq> None), ErrorType = err\<rparr>)
       addrs (TXT_answers dns ctx (Sprintf_s_dot_s (Reverse ip) zone) (length addrs) s')"
proof -
  let ?r = "NewRBL dns zone True"
  have h: "LookupHost (resolver ?r) ctx (Sprintf_s_dot_s (Reverse ip) (hostname ?r)) s = ((addrs, err), s')"
    using assms(1) by (simp add: NewRBL_def)
  have t: "lookupTxt ?r" by (simp add: NewRBL_def)
  have "Results (fst (RBL_LookupIP ?r ctx ip s)) =
     map2 (\<lambda>addr (txt, txtErr).
             \<lparr>Address = ip_String ip, Listed = True, ListedAddress = addr,
               Text = (case txt of [] \<Rightarrow> [] | t # _ \<Rightarrow> t),
               Error = (err \<noteq> None), ErrorType = err\<rparr>)
       addrs (TXT_answers (resolver ?r) ctx (Sprintf_s_dot_s (Reverse ip) (hostname ?r)) (length addrs) s')"
    by (simp add: RBL_LookupIP_answers [OF h assms(2)] LookupIP_loop_Txt [OF t])
  then show ?thesis by (simp add: NewRBL_def)
qed

theorem LookupIP_answers_with_TXT_witness:
  "LookupHost example_dns 1 (Sprintf_s_dot_s (Reverse [127, 0, 0, 2]) ''zen.example'') 1 =
     (([''127.0.0.2'', ''127.0.0.4''], None), 2) \<and>
   [''127.0.0.2'', ''127.0.0.4''] \<noteq> [] \<and>
   TXT_answers example_dns 1 (Sprintf_s_dot_s (Reverse [127, 0, 0, 2]) ''zen.example'') 2 2 =
     [([''listed, lookup 2'', ''more''], None), ([], Some ''timeout'')] \<and>
   Results (fst (RBL_LookupIP (NewRBL example_dns ''zen.example'' True) 1 [127, 0, 0, 2] 1)) =
     [\<lparr>Address = ''127.0.0.2'', Listed = True, ListedAddress = ''127.0.0.2'',
       Text = ''listed, lookup 2'', Error = False, ErrorType = None\<rparr>,
      \<lparr>Address = ''127.0.0.2'', Listed = True, ListedAddress = ''127.0.0.4'', Text = [],
       Error = False, ErrorType = None\<rparr>]"
proof -
  have h: "LookupHost example_dns 1 (Sprintf_s_dot_s (Reverse [127, 0, 0, 2]) ''zen.example'') 1 =
     (([''127.0.0.2'', ''127.0.0.4''], None), 2)"
    by code_simp
  have n: "[''127.0.0.2'', ''127.0.0.4''] \<noteq> []" by simp
  have a: "ip_String [127, 0, 0, 2] = ''127.0.0.2''" by code_simp
  have t: "TXT_answers example_dns 1 (Sprintf_s_dot_s (Reverse [127, 0, 0, 2]) ''zen.example'') 2 2 =
     [([''listed, lookup 2'', ''more''], None), ([], Some ''timeout'')]"
    by code_simp
  have l: "length [''127.0.0.2'', ''127.0.0.4''] = 2" by simp
  have "Results (fst (RBL_LookupIP (NewRBL example_dns ''zen.example'' True) 1 [127, 0, 0, 2] 1)) =
     [\<lparr>Address = ''127.0.0.2'', Listed = True, ListedAddress = ''127.0.0.2'',
       Text = ''listed, lookup 2'', Error = False, ErrorType = None\<rparr>,
      \<lparr>Address = ''127.0.0.2'', Listed = True, ListedAddress = ''127.0.0.4'', Text = [],
       Error = False, ErrorType = None\<rparr>]"
    unfolding LookupIP_answers_with_TXT [OF h n] l t a by simp
  with h n t show ?thesis by (intro conjI)
qed

text \<open>
  Claim C4. When the host lookup returns at least one address together with an error
  \<open>e\<close>, \<open>RBL.LookupIP\<close> returns one finding for each address, and every one of them
  has its error flag set and \<open>e\<close> as its cause.
\<close>

theorem LookupIP_error_on_every_finding:
  assumes "LookupHost (resolver r) ctx (Sprintf_s_dot_s (Reverse ip) (hostname r)) s = ((addrs, Some e), s')"
    and "addrs \<noteq> []"
  shows "length (Results (fst (RBL_LookupIP r ctx ip s))) = length addrs \<and>
     (\<forall>f \<in> set (Results (fst (RBL_LookupIP r ctx ip s))). Error f \<and> ErrorType f = Some e)"
proof -
  let ?name = "Sprintf_s_dot_s (Reverse ip) (hostname r)"
  have eq: "RBL_LookupIP r ctx ip s = LookupIP_loop r ctx ip ?name (Some e) addrs
      \<lparr>List = hostname r, Host = ip_String ip, Results = []\<rparr> s'"
    by (rule RBL_LookupIP_answers [OF assms])
  have "\<forall>f \<in> set (Results (fst (LookupIP_loop r ctx ip ?name (Some e) addrs
      \<lparr>List = hostname r, Host = ip_String ip, Results = []\<rparr> s'))).
      Error f \<and> ErrorType f = Some e"
    by (rule LookupIP_loop_findings) (simp_all add: LookupIP_finding_fields)
  then show ?thesis by (simp add: eq LookupIP_loop_length)
qed

theorem LookupIP_error_on_every_finding_witness:
  "LookupHost (resolver (NewRBL example_dns ''zen.example'' True)) 1
     (Sprintf_s_dot_s (Reverse [10, 0, 0, 1]) (hostname (NewRBL example_dns ''zen.example'' True))) 0 =
     (([''127.0.0.9''], Some ''truncated''), 1) \<and>
   [''127.0.0.9''] \<noteq> [] \<and>
   \<lparr>Address = ''10.0.0.1'', Listed = True, ListedAddress = ''127.0.0.9'', Text = [],
     Error = True, ErrorType = Some ''truncated''\<rparr>
     \<in> set (Results (fst (RBL_LookupIP (NewRBL example_dns ''zen.example'' True) 1 [10, 0, 0, 1] 0))) \<and>
   length (Results (fst (RBL_LookupIP (NewRBL example_dns ''zen.example'' True) 1 [10, 0, 0, 1] 0))) = 1"
proof -
  have h: "LookupHost (resolver (NewRBL example_dns ''zen.example'' True)) 1
     (Sprintf_s_dot_s (Reverse [10, 0, 0, 1]) (hostname (NewRBL example_dns ''zen.example'' True))) 0 =
     (([''127.0.0.9''], Some ''truncated''), 1)"
    by code_simp
  have n: "[''127.0.0.9''] \<noteq> []" by simp
  have m: "\<lparr>Address = ''10.0.0.1'', Listed = True, ListedAddress = ''127.0.0.9'', Text = [],
     Error = True, ErrorType = Some ''truncated''\<rparr>
     \<in> set (Results (fst (RBL_LookupIP (NewRBL example_dns ''zen.example'' True) 1 [10, 0, 0, 1] 0)))"
    by code_simp
  show ?thesis using h m LookupIP_error_on_every_finding [OF h n] by simp
qed

text \<open>
  Claim C5. When the lookup of the host name succeeds with the addresses \<open>addrs\<close>,
  the findings of \<open>RBL.Lookup\<close> are those of \<open>RBL.LookupIP\<close> called once for each
  IPv4 address among \<open>addrs\<close>, in the order of the answer and one call after the other,
  appended in that order with the order of each call's findings kept. The addresses that
  are not IPv4 are filtered out before any call, so they contribute no finding.
\<close>

theorem Lookup_IPv4_only:
  assumes "LookupIPAddr (resolver r) ctx targetHost s = ((addrs, None), s')"
  shows "Results (fst (RBL_Lookup r ctx targetHost s)) =
     concat (LookupIP_each r ctx (filter (\<lambda>ip. To4 ip \<noteq> None) (map IP addrs)) s')"
  using assms by (simp add: RBL_Lookup_def Lookup_loop_Results)

theorem Lookup_IPv4_only_witness:
  "LookupIPAddr (resolver (NewRBL example_dns ''zen.example'' True)) 1 ''mail.example'' 0 =
     (([\<lparr>IP = [127, 0, 0, 2], Zone = []\<rparr>,
        \<lparr>IP = [0x20, 1, 0xd, 0xb8, 0, 0, 0, 0, 0, 0, 0, 0, 0, 0, 0, 1], Zone = []\<rparr>,
        \<lparr>IP = [10, 0, 0, 1], Zone = []\<rparr>], None), 1) \<and>
   filter (\<lambda>ip. To4 ip \<noteq> None)
     (map IP [\<lparr>IP = [127, 0, 0, 2], Zone = []\<rparr>,
        \<lparr>IP = [0x20, 1, 0xd, 0xb8, 0, 0, 0, 0, 0, 0, 0, 0, 0, 0, 0, 1], Zone = []\<rparr>,
        \<lparr>IP = [10, 0, 0, 1], Zone = []\<rparr>]) = [[127, 0, 0, 2], [10, 0, 0, 1]] \<and>
   Results (fst (RBL_Lookup (NewRBL example_dns ''zen.example'' True) 1 ''mail.example'' 0)) =
     [\<lparr>Address = ''127.0.0.2'', Listed = True, ListedAddress = ''127.0.0.2'',
       Text = ''listed, lookup 2'', Error = False, ErrorType = None\<rparr>,
      \<lparr>Address = ''127.0.0.2'', Listed = True, ListedAddress = ''127.0.0.4'', Text = [],
       Error = False, ErrorType = None\<rparr>,
      \<lparr>Address = ''10.0.0.1'', Listed = True, ListedAddress = ''127.0.0.9'', Text = [],
       Error = True, ErrorType = Some ''truncated''\<rparr>]"
proof -
  have h: "LookupIPAddr (resolver (NewRBL example_dns ''zen.example'' True)) 1 ''mail.example'' 0 =
     (([\<lparr>IP = [127, 0, 0, 2], Zone = []\<rparr>,
        \<lparr>IP = [0x20, 1, 0xd, 0xb8, 0, 0, 0, 0, 0, 0, 0, 0, 0, 0, 0, 1], Zone = []\<rparr>,
        \<lparr>IP = [10, 0, 0, 1], Zone = []\<rparr>], None), 1)"
    by code_simp
  have f: "filter (\<lambda>ip. To4 ip \<noteq> None)
     (map IP [\<lparr>IP = [127, 0, 0, 2], Zone = []\<rparr>,
        \<lparr>IP = [0x20, 1, 0xd, 0xb8, 0, 0, 0, 0, 0, 0, 0, 0, 0, 0, 0, 1], Zone = []\<rparr>,
        \<lparr>IP = [10, 0, 0, 1], Zone = []\<rparr>]) = [[127, 0, 0, 2], [10, 0, 0, 1]]"
    by code_simp
  have e: "concat (LookupIP_each (NewRBL example_dns ''zen.example'' True) 1
       [[127, 0, 0, 2], [10, 0, 0, 1]] 1) =
     [\<lparr>Address = ''127.0.0.2'', Listed = True, ListedAddress = ''127.0.0.2'',
       Text = ''listed, lookup 2'', Error = False, ErrorType = None\<rparr>,
      \<lparr>Address = ''127.0.0.2'', Listed = True, ListedAddress = ''127.0.0.4'', Text = [],
       Error = False, ErrorType = None\<rparr>,
      \<lparr>Address = ''10.0.0.1'', Listed = True, ListedAddress = ''127.0.0.9'', Text = [],
       Error = True, ErrorType = Some ''truncated''\<rparr>]"
    by code_simp
  have "Results (fst (RBL_Lookup (NewRBL example_dns ''zen.example'' True) 1 ''mail.example'' 0)) =
     [\<lparr>Address = ''127.0.0.2'', Listed = True, ListedAddress = ''127.0.0.2'',
       Text = ''listed, lookup 2'', Error = False, ErrorType = None\<rparr>,
      \<lparr>Address = ''127.0.0.2'', Listed = True, ListedAddress = ''127.0.0.4'', Text = [],
       Error = False, ErrorType = None\<rparr>,
      \<lparr>Address = ''10.0.0.1'', Listed = True, ListedAddress = ''127.0.0.9'', Text = [],
       Error = True, ErrorType = Some ''truncated''\<rparr>]"
    unfolding Lookup_IPv4_only [OF h] f e by (rule refl)
  with h f show ?thesis by (intro conjI)
qed

text \<open>
  Claim C6. When the lookup of the host name returns an error, and likewise when it returns
  no address, \<open>RBL.Lookup\<close> returns the result with the list, the host name and no
  finding, and makes no further lookup. The function has no other outcome (no error
  is raised), and the result holds no trace of the error of the lookup: it is the same
  for every \<open>err\<close>.
\<close>

theorem Lookup_unresolved_host:
  assumes "LookupIPAddr (resolver r) ctx targetHost s = ((addrs, err), s')"
    and "err \<noteq> None \<or> addrs = []"
  shows "RBL_Lookup r ctx targetHost s =
     (\<lparr>List = hostname r, Host = targetHost, Results = []\<rparr>, s')"
  using assms by (auto simp: RBL_Lookup_def Let_def)

theorem Lookup_unresolved_host_witness:
  "LookupIPAddr (resolver (NewRBL example_dns ''zen.example'' True)) 1 ''nomail.example'' 0 =
     (([], Some ''no such host''), 1) \<and>
   Some ''no such host'' \<noteq> None \<and>
   RBL_Lookup (NewRBL example_dns ''zen.example'' True) 1 ''nomail.example'' 0 =
     (\<lparr>List = ''zen.example'', Host = ''nomail.example'', Results = []\<rparr>, 1)"
proof -
  have h: "LookupIPAddr (resolver (NewRBL example_dns ''zen.example'' True)) 1 ''nomail.example'' 0 =
     (([], Some ''no such host''), 1)"
    by code_simp
  have e: "Some ''no such host'' \<noteq> None" by simp
  have z: "hostname (NewRBL example_dns ''zen.example'' True) = ''zen.example''"
    by (simp add: NewRBL_def)
  have "RBL_Lookup (NewRBL example_dns ''zen.example'' True) 1 ''nomail.example'' 0 =
     (\<lparr>List = ''zen.example'', Host = ''nomail.example'', Results = []\<rparr>, 1)"
    using Lookup_unresolved_host [OF h disjI1 [OF e]] unfolding z .
  with h e show ?thesis by (intro conjI)
qed

text \<open>
  Claim C7. Whatever the resolver answers, the result of \<open>RBL.LookupIP\<close> has the
  client's zone name as \<open>List\<close> and \<open>ip.String()\<close> as \<open>Host\<close>, and the result
  of \<open>RBL.Lookup\<close> has the client's zone name as \<open>List\<close> and the host name it was
  given as \<open>Host\<close>; the zone name of a client is the one given to \<open>NewRBL\<close>. So a
  client for \<open>b.barracudacentral.org\<close> that looks \<open>smtp.gmail.com\<close> up returns
  these two names.
\<close>

theorem LookupIP_Lookup_List_Host:
  "List (fst (RBL_LookupIP r ctx ip s)) = hostname r \<and>
   Host (fst (RBL_LookupIP r ctx ip s)) = ip_String ip \<and>
   List (fst (RBL_Lookup r ctx targetHost s)) = hostname r \<and>
   Host (fst (RBL_Lookup r ctx targetHost s)) = targetHost \<and>
   hostname (NewRBL dns zone t) = zone \<and>
   List (fst (RBL_Lookup (NewRBL dns ''b.barracudacentral.org'' True) ctx ''smtp.gmail.com'' s)) =
     ''b.barracudacentral.org'' \<and>
   Host (fst (RBL_Lookup (NewRBL dns ''b.barracudacentral.org'' True) ctx ''smtp.gmail.com'' s)) =
     ''smtp.gmail.com''"
  by (simp add: RBL_LookupIP_List_Host RBL_Lookup_List_Host) (simp add: NewRBL_def)

text \<open>
  Claim C8. For an IPv4 address \<open>a\<close>, the text \<open>Reverse a\<close> is the dotted quad of
  some IPv4 address, and \<open>Reverse\<close> of any IPv4 address \<open>b\<close> with that dotted quad
  is the dotted quad of \<open>a\<close> again: reversing the octets twice gives the original
  text. \<open>Reverse\<close> of \<open>192.168.1.1\<close> is \<open>1.1.168.192\<close>. For an address
  that is not IPv4 (\<open>To4\<close> is \<open>nil\<close>), an IPv6 address for one, \<open>Reverse\<close> is the
  empty string. \<open>Reverse\<close> is a function of its argument alone, defined for every
  byte slice.
\<close>

theorem Reverse_round_trip:
  "(To4 a \<noteq> None \<longrightarrow>
      (\<exists>b. To4 b \<noteq> None \<and> ip_String b = Reverse a) \<and>
      (\<forall>b. To4 b \<noteq> None \<and> ip_String b = Reverse a \<longrightarrow> Reverse b = ip_String a)) \<and>
   Reverse [192, 168, 1, 1] = ''1.1.168.192'' \<and>
   (To4 c = None \<longrightarrow> Reverse c = [])"
proof (intro conjI impI allI)
  assume "To4 a \<noteq> None"
  then obtain p where p: "To4 a = Some p" by blast
  then have len: "length p = 4" by (rule To4_length)
  have "To4 (rev p) \<noteq> None" using To4_rev4 [OF len] by simp
  moreover have "ip_String (rev p) = Reverse a"
    by (simp only: ip_String_To4 [OF To4_rev4 [OF len]] Reverse_To4 [OF p])
  ultimately show "\<exists>b. To4 b \<noteq> None \<and> ip_String b = Reverse a" by blast
next
  fix b
  assume a: "To4 a \<noteq> None" and b: "To4 b \<noteq> None \<and> ip_String b = Reverse a"
  from a obtain p where p: "To4 a = Some p" by blast
  from b obtain q where q: "To4 b = Some q" by blast
  have "string4 q = string4 (rev p)"
    using b by (simp only: ip_String_To4 [OF q] Reverse_To4 [OF p])
  moreover have "length q = 4" "length (rev p) = 4"
    using To4_length [OF p] To4_length [OF q] by simp_all
  ultimately have "q = rev p" by (intro string4_inj)
  then show "Reverse b = ip_String a"
    by (simp add: Reverse_To4 [OF q] ip_String_To4 [OF p])
next
  show "Reverse [192, 168, 1, 1] = ''1.1.168.192''" by code_simp
next
  assume "To4 c = None"
  then show "Reverse c = []" by (simp add: Reverse_def)
qed

theorem Reverse_round_trip_witness:
  "To4 [192, 168, 1, 1] \<noteq> None \<and>
   To4 [1, 1, 168, 192] \<noteq> None \<and>
   ip_String [1, 1, 168, 192] = Reverse [192, 168, 1, 1] \<and>
   Reverse [1, 1, 168, 192] = ip_String [192, 168, 1, 1] \<and>
   ip_String [192, 168, 1, 1] = ''192.168.1.1'' \<and>
   To4 [0x20, 1, 0xd, 0xb8, 0, 0, 0, 0, 0, 0, 0, 0, 0, 0, 0, 1] = None \<and>
   Reverse [0x20, 1, 0xd, 0xb8, 0, 0, 0, 0, 0, 0, 0, 0, 0, 0, 0, 1] = []"
proof -
  have a: "To4 [192, 168, 1, 1] \<noteq> None" by code_simp
  have b: "To4 [1, 1, 168, 192] \<noteq> None" by code_simp
  have e: "ip_String [1, 1, 168, 192] = Reverse [192, 168, 1, 1]" by code_simp
  have s: "ip_String [192, 168, 1, 1] = ''192.168.1.1''" by code_simp
  have c: "To4 [0x20, 1, 0xd, 0xb8, 0, 0, 0, 0, 0, 0, 0, 0, 0, 0, 0, 1] = None" by code_simp
  note t = Reverse_round_trip [of "[192, 168, 1, 1]"
      "[0x20, 1, 0xd, 0xb8, 0, 0, 0, 0, 0, 0, 0, 0, 0, 0, 0, 1]"]
  from t a b e have r: "Reverse [1, 1, 168, 192] = ip_String [192, 168, 1, 1]" by blast
  from t c have z: "Reverse [0x20, 1, 0xd, 0xb8, 0, 0, 0, 0, 0, 0, 0, 0, 0, 0, 0, 1] = []"
    by blast
  from a b e r s c z show ?thesis by (intro conjI)
qed

text \<open>
  Claim C9. Every finding returned by \<open>RBL.LookupIP\<close> or by \<open>RBL.Lookup\<close>,
  whatever the resolver answers, satisfies the invariant of the data model: if it is not
  listed, its listed address and its text are empty; if its error flag is set, its error
  cause is not \<open>nil\<close>.
\<close>

theorem findings_invariant:
  fixes r :: "('c, 'e, 's) RBL"
  shows
  "(\<forall>f \<in> set (Results (fst (RBL_LookupIP r ctx ip s))).
      (\<not> Listed f \<longrightarrow> ListedAddress f = [] \<and> Text f = []) \<and>
      (Error f \<longrightarrow> ErrorType f \<noteq> None)) \<and>
   (\<forall>f \<in> set (Results (fst (RBL_Lookup r ctx targetHost s))).
      (\<not> Listed f \<longrightarrow> ListedAddress f = [] \<and> Text f = []) \<and>
      (Error f \<longrightarrow> ErrorType f \<noteq> None))"
proof -
  let ?inv = "\<lambda>f :: 'e Result.
      (\<not> Listed f \<longrightarrow> ListedAddress f = [] \<and> Text f = []) \<and>
      (Error f \<longrightarrow> ErrorType f \<noteq> None)"
  have ip: "\<forall>f \<in> set (Results (fst (RBL_LookupIP r ctx ip s))). ?inv f" for ip s
    by (rule RBL_LookupIP_findings) (simp_all add: LookupIP_finding_fields)
  obtain addrs err s' where h: "LookupIPAddr (resolver r) ctx targetHost s = ((addrs, err), s')"
    by (metis prod.exhaust)
  have "\<forall>f \<in> set (Results (fst (RBL_Lookup r ctx targetHost s))). ?inv f"
  proof (cases "err = None")
    case True
    have "\<forall>f \<in> set (concat (LookupIP_each r ctx
        (filter (\<lambda>ip. To4 ip \<noteq> None) (map IP addrs)) s')).
        \<exists>ip \<in> set (filter (\<lambda>ip. To4 ip \<noteq> None) (map IP addrs)). ?inv f"
      by (rule LookupIP_each_findings) (rule ip)
    then show ?thesis using h True
      by (simp add: RBL_Lookup_def Lookup_loop_Results)
  next
    case False
    with h show ?thesis by (auto simp: RBL_Lookup_def Let_def)
  qed
  with ip show ?thesis by blast
qed

theorem findings_invariant_witness:
  "\<lparr>Address = ''10.0.0.3'', Listed = False, ListedAddress = [], Text = [],
     Error = True, ErrorType = Some ''no such host''\<rparr>
     \<in> set (Results (fst (RBL_LookupIP (NewRBL example_dns ''zen.example'' True) 1 [10, 0, 0, 3] 0))) \<and>
   \<lparr>Address = ''10.0.0.1'', Listed = True, ListedAddress = ''127.0.0.9'', Text = [],
     Error = True, ErrorType = Some ''truncated''\<rparr>
     \<in> set (Results (fst (RBL_Lookup (NewRBL example_dns ''zen.example'' True) 1 ''mail.example'' 0))) \<and>
   ErrorType \<lparr>Address = ''10.0.0.3'', Listed = False, ListedAddress = [], Text = [],
     Error = True, ErrorType = Some ''no such host''\<rparr> \<noteq> (None :: string option) \<and>
   ErrorType \<lparr>Address = ''10.0.0.1'', Listed = True, ListedAddress = ''127.0.0.9'', Text = [],
     Error = True, ErrorType = Some ''truncated''\<rparr> \<noteq> (None :: string option)"
proof -
  let ?f = "\<lparr>Address = ''10.0.0.3'', Listed = False, ListedAddress = [], Text = [],
     Error = True, ErrorType = Some ''no such host''\<rparr>"
  let ?g = "\<lparr>Address = ''10.0.0.1'', Listed = True, ListedAddress = ''127.0.0.9'', Text = [],
     Error = True, ErrorType = Some ''truncated''\<rparr>"
  have m: "?f \<in> set (Results (fst (RBL_LookupIP (NewRBL example_dns ''zen.example'' True) 1 [10, 0, 0, 3] 0)))"
    by code_simp
  have n: "?g \<in> set (Results (fst (RBL_Lookup (NewRBL example_dns ''zen.example'' True) 1 ''mail.example'' 0)))"
    by code_simp
  note t = findings_invariant [of "NewRBL example_dns ''zen.example'' True" 1 "[10, 0, 0, 3]" 0
      "''mail.example''"]
  from t m have "Error ?f \<longrightarrow> ErrorType ?f \<noteq> None" by blast
  then have f: "ErrorType ?f \<noteq> None" by simp
  from t n have "Error ?g \<longrightarrow> ErrorType ?g \<noteq> None" by blast
  then have g: "ErrorType ?g \<noteq> None" by simp
  from m n f g show ?thesis by (intro conjI)
qed

text \<open>
  Claim C10. The two generations of the package agree. When the resolver answers in the
  context \<open>ctx\<close> given to the methods as it does in \<open>context.Background()\<close>, which
  the package-level functions use, \<open>query\<close> returns the findings of \<open>RBL.LookupIP\<close>
  on the client \<open>NewRBL(rblList, lookupTxt)\<close>, and \<open>Lookup\<close> returns the same
  \<open>List\<close>, \<open>Host\<close> and findings as \<open>RBL.Lookup\<close> on that client; both leave
  the resolver in the same state.
\<close>

theorem old_and_new_agree:
  assumes "\<forall>name s. LookupHost dns ctx name s = LookupHost dns bg name s"
    and "\<forall>name s. LookupTXT dns ctx name s = LookupTXT dns bg name s"
    and "\<forall>name s. LookupIPAddr dns ctx name s = LookupIPAddr dns bg name s"
  shows "query dns bg rblList ip lookupTxt' s =
       (Results (fst (RBL_LookupIP (NewRBL dns rblList lookupTxt') ctx ip s)),
        snd (RBL_LookupIP (NewRBL dns rblList lookupTxt') ctx ip s)) \<and>
     Lookup dns bg rblList targetHost lookupTxt' s =
       RBL_Lookup (NewRBL dns rblList lookupTxt') ctx targetHost s"
proof
  show "query dns bg rblList ip lookupTxt' s =
       (Results (fst (RBL_LookupIP (NewRBL dns rblList lookupTxt') ctx ip s)),
        snd (RBL_LookupIP (NewRBL dns rblList lookupTxt') ctx ip s))"
    by (rule query_eq [OF assms(1,2)])
next
  have nr: "resolver (NewRBL dns rblList lookupTxt') = dns"
    "hostname (NewRBL dns rblList lookupTxt') = rblList"
    by (simp_all add: NewRBL_def)
  obtain addrs err s' where h: "LookupIPAddr dns bg targetHost s = ((addrs, err), s')"
    by (metis prod.exhaust)
  then have h': "LookupIPAddr dns ctx targetHost s = ((addrs, err), s')" using assms(3) by simp
  show "Lookup dns bg rblList targetHost lookupTxt' s =
       RBL_Lookup (NewRBL dns rblList lookupTxt') ctx targetHost s"
    using h h'
    by (cases err)
      (simp_all add: Lookup_def RBL_Lookup_def net_LookupIP_def nr Let_def
        Lookup_v1_loop_eq [OF assms(1,2)])
qed

theorem old_and_new_agree_witness:
  "(\<forall>name s. LookupHost example_dns 1 name s = LookupHost example_dns 0 name s) \<and>
   (\<forall>name s. LookupTXT example_dns 1 name s = LookupTXT example_dns 0 name s) \<and>
   (\<forall>name s. LookupIPAddr example_dns 1 name s = LookupIPAddr example_dns 0 name s) \<and>
   query example_dns 0 ''zen.example'' [127, 0, 0, 2] True 0 =
     (Results (fst (RBL_LookupIP (NewRBL example_dns ''zen.example'' True) 1 [127, 0, 0, 2] 0)),
      snd (RBL_LookupIP (NewRBL example_dns ''zen.example'' True) 1 [127, 0, 0, 2] 0)) \<and>
   Lookup example_dns 0 ''zen.example'' ''mail.example'' True 0 =
     RBL_Lookup (NewRBL example_dns ''zen.example'' True) 1 ''mail.example'' 0 \<and>
   Results (fst (Lookup example_dns 0 ''zen.example'' ''mail.example'' True 0)) =
     [\<lparr>Address = ''127.0.0.2'', Listed = True, ListedAddress = ''127.0.0.2'',
       Text = ''listed, lookup 2'', Error = False, ErrorType = None\<rparr>,
      \<lparr>Address = ''127.0.0.2'', Listed = True, ListedAddress = ''127.0.0.4'', Text = [],
       Error = False, ErrorType = None\<rparr>,
      \<lparr>Address = ''10.0.0.1'', Listed = True, ListedAddress = ''127.0.0.9'', Text = [],
       Error = True, ErrorType = Some ''truncated''\<rparr>]"
proof -
  have h1: "\<forall>name s. LookupHost example_dns 1 name s = LookupHost example_dns 0 name s"
    by (simp add: example_dns_def)
  have h2: "\<forall>name s. LookupTXT example_dns 1 name s = LookupTXT example_dns 0 name s"
    by (simp add: example_dns_def)
  have h3: "\<forall>name s. LookupIPAddr example_dns 1 name s = LookupIPAddr example_dns 0 name s"
    by (simp add: example_dns_def)
  note t = old_and_new_agree [OF h1 h2 h3, of "''zen.example''" "[127, 0, 0, 2]" True 0
      "''mail.example''"]
  have v: "Results (fst (Lookup example_dns 0 ''zen.example'' ''mail.example'' True 0)) =
     [\<lparr>Address = ''127.0.0.2'', Listed = True, ListedAddress = ''127.0.0.2'',
       Text = ''listed, lookup 2'', Error = False, ErrorType = None\<rparr>,
      \<lparr>Address = ''127.0.0.2'', Listed = True, ListedAddress = ''127.0.0.4'', Text = [],
       Error = False, ErrorType = None\<rparr>,
      \<lparr>Address = ''10.0.0.1'', Listed = True, ListedAddress = ''127.0.0.9'', Text = [],
       Error = True, ErrorType = Some ''truncated''\<rparr>]"
    by code_simp
  from h1 h2 h3 t v show ?thesis by (intro conjI) blast+
qed

end
